theory Spec2Isabelle
  imports Complex_Main "HOL-Library.Sublist" "HOL-Library.AList"
begin

section \<open>Python values, exceptions and strings\<close>

text \<open>
  The vault note cache (\<^verbatim>\<open>claudesidian_mcp/vault.py\<close>) and the title search
  (\<^verbatim>\<open>claudesidian_mcp/search.py\<close>) are embedded as functions that pass the manager's
  state and the outside world (file system, clock) explicitly.  A Python \<^verbatim>\<open>str\<close> is
  the list of its code points, each a \<^typ>\<open>char\<close>: the model covers the strings whose
  code points lie below 256.  An exception that a \<^verbatim>\<open>try\<close> block can catch is a value
  of \<open>exn\<close>; a \<^verbatim>\<open>float\<close> time stamp, threshold or score is a \<^typ>\<open>real\<close> (the code
  only subtracts and compares them), and a \<^verbatim>\<open>datetime\<close> is the real number the
  library's conversion gives.
\<close>

datatype exn =
  FileNotFoundError | IsADirectoryError | PermissionError | ValueError | IndexError
  | YAMLError | OtherError

datatype pyval =
  PyNone | PyBool bool | PyInt int | PyStr string | PyList "pyval list"
  | PyDict "(pyval \<times> pyval) list"

text \<open>A \<^verbatim>\<open>dict\<close> is an association list in insertion order.\<close>

type_synonym pydict = "(pyval \<times> pyval) list"

text \<open>\<^verbatim>\<open>sub in s\<close> for strings.\<close>

fun str_contains :: "string \<Rightarrow> string \<Rightarrow> bool" where
  "str_contains sub [] = (sub = [])"
| "str_contains sub (c # cs) = (prefix sub (c # cs) \<or> str_contains sub cs)"

subsection \<open>The three metadata patterns\<close>

text \<open>
  \<^verbatim>\<open>_yaml_pattern = re.compile(r'^---\n(.*?)\n---', re.DOTALL)\<close>, used with
  \<^verbatim>\<open>.match(content)\<close>: the content starts with the opening fence and group 1 is the
  shortest text that is followed by a newline and three dashes.  \<open>lazy_until\<close> is the
  non-greedy \<^verbatim>\<open>(.*?)\<close> in front of a literal.
\<close>

fun lazy_until :: "string \<Rightarrow> string \<Rightarrow> string option" where
  "lazy_until lit [] = (if lit = [] then Some [] else None)"
| "lazy_until lit (c # cs) =
     (if prefix lit (c # cs) then Some [] else map_option ((#) c) (lazy_until lit cs))"

definition yaml_pattern_match :: "string \<Rightarrow> string option" where
  "yaml_pattern_match s =
     (if prefix ''---\<newline>'' s then lazy_until ''\<newline>---'' (drop 4 s) else None)"

text \<open>
  \<^verbatim>\<open>_tag_pattern = re.compile(r'#([a-zA-Z0-9_-]+)')\<close> with \<^verbatim>\<open>findall\<close>: the
  greedy run of tag characters after each hash sign, scanning on after the run.
\<close>

definition is_tag_char :: "char \<Rightarrow> bool" where
  "is_tag_char c =
     (let n = (of_char c :: nat) in
        (97 \<le> n \<and> n \<le> 122) \<or> (65 \<le> n \<and> n \<le> 90) \<or> (48 \<le> n \<and> n \<le> 57)
        \<or> c = CHR ''_'' \<or> c = CHR ''-'')"

function tag_findall :: "string \<Rightarrow> string list" where
  "tag_findall [] = []"
| "tag_findall (c # cs) =
     (if c = CHR ''#'' \<and> takeWhile is_tag_char cs \<noteq> []
      then takeWhile is_tag_char cs # tag_findall (dropWhile is_tag_char cs)
      else tag_findall cs)"
  by pat_completeness auto
termination
  by (relation "measure length") (auto simp: length_dropWhile_le less_Suc_eq_le)

text \<open>
  \<^verbatim>\<open>_link_pattern = re.compile(r'\[\[(.*?)\]\]')\<close> with \<^verbatim>\<open>findall\<close>: without
  DOTALL the dot does not match a newline, so a link closes on its own line.
  \<open>lazy_line_until\<close> gives group 1 and the text after the closing literal.
\<close>

fun lazy_line_until :: "string \<Rightarrow> string \<Rightarrow> (string \<times> string) option" where
  "lazy_line_until lit [] = (if lit = [] then Some ([], []) else None)"
| "lazy_line_until lit (c # cs) =
     (if prefix lit (c # cs) then Some ([], drop (length lit) (c # cs))
      else if c = CHR ''\<newline>'' then None
      else map_option (\<lambda>(g, r). (c # g, r)) (lazy_line_until lit cs))"

lemma lazy_line_until_length:
  "lazy_line_until lit s = Some (g, r) \<Longrightarrow> length r \<le> length s"
proof (induction s arbitrary: g)
  case Nil
  then show ?case by (simp split: if_splits)
next
  case (Cons c cs)
  then show ?case by (fastforce split: if_splits)
qed

function link_findall :: "string \<Rightarrow> string list" where
  "link_findall [] = []"
| "link_findall (c # cs) =
     (if prefix ''[['' (c # cs)
      then (case lazy_line_until '']]'' (drop 1 cs) of
              Some (g, r) \<Rightarrow> g # link_findall r
            | None \<Rightarrow> link_findall cs)
      else link_findall cs)"
  by pat_completeness auto
termination
  by (relation "measure length") (auto dest!: lazy_line_until_length)

subsection \<open>Front matter (\<^verbatim>\<open>_get_metadata\<close>, lines 305 to 319)\<close>

text \<open>
  Two functions of libraries outside this repository are parameters, held in one record.
  \<^verbatim>\<open>yaml.safe_load\<close> (PyYAML) returns the loaded value or raises;
  \<^verbatim>\<open>except yaml.YAMLError\<close> catches \<open>YAMLError\<close> only, any other exception leaves
  the block.  \<^verbatim>\<open>datetime.fromtimestamp\<close> (standard library) converts a time stamp of
  \<^verbatim>\<open>stat\<close> or raises: which time stamps are out of range depends on the platform
  and the time zone.
\<close>

record library =
  yaml_safe_load :: "string \<Rightarrow> exn + pyval"
  datetime_fromtimestamp :: "real \<Rightarrow> exn + real"

definition parse_frontmatter :: "library \<Rightarrow> string \<Rightarrow> exn + pydict" where
  "parse_frontmatter lib s =
     (case yaml_pattern_match s of
        None \<Rightarrow> Inr []
      | Some yaml_content \<Rightarrow>
          if str_contains ''{{'' yaml_content \<or> str_contains ''{%'' yaml_content
          then Inr [(PyStr ''_is_template'', PyBool True)]
          else (case yaml_safe_load lib yaml_content of
                  Inr parsed \<Rightarrow> (case parsed of PyDict d \<Rightarrow> Inr d | _ \<Rightarrow> Inr [])
                | Inl e \<Rightarrow>
                    if e = YAMLError
                    then Inr [(PyStr ''_raw_frontmatter'', PyStr yaml_content)]
                    else Inl e))"

section \<open>Paths, the file system and the clock\<close>

text \<open>
  A \<^verbatim>\<open>pathlib.Path\<close> is its anchor (absolute or not) and its list of names.
  \<open>joinpath\<close> is the operator \<^verbatim>\<open>/\<close>, \<open>relative_to\<close> raises \<^verbatim>\<open>ValueError\<close>
  when the other path is not a prefix, \<open>stem\<close> is the last name without its final suffix
  (\<^verbatim>\<open>i = name.rfind('.')\<close>, cut when \<^verbatim>\<open>0 < i < len(name) - 1\<close>).
\<close>

datatype path = Path (is_absolute: bool) (parts: "string list")

definition joinpath :: "path \<Rightarrow> path \<Rightarrow> path" where
  "joinpath a b = (if is_absolute b then b else Path (is_absolute a) (parts a @ parts b))"

definition relative_to :: "path \<Rightarrow> path \<Rightarrow> exn + path" where
  "relative_to a other =
     (if is_absolute a = is_absolute other \<and> prefix (parts other) (parts a)
      then Inr (Path False (drop (length (parts other)) (parts a)))
      else Inl ValueError)"

definition stem :: "path \<Rightarrow> string" where
  "stem a =
     (case rev (parts a) of
        [] \<Rightarrow> []
      | name # _ \<Rightarrow>
          (let after_dot = length (takeWhile (\<lambda>c. c \<noteq> CHR ''.'') (rev name)) in
             if CHR ''.'' \<in> set name \<and> 0 < after_dot \<and> Suc after_dot < length name
             then take (length name - Suc after_dot) name
             else name))"

text \<open>
  The file system maps a path, looked up as it is written, to a node.  A node that is not
  \<open>readable\<close> makes \<^verbatim>\<open>read_text\<close> raise (no permission, or bytes that are not UTF-8),
  one that is not \<open>writable\<close> makes \<^verbatim>\<open>write_text\<close> raise.  \<open>disk_reads\<close> counts the
  calls of \<^verbatim>\<open>read_text\<close>: it is the read-count instrumentation of the specification
  and no function reads it.  \<open>clock\<close> is what \<^verbatim>\<open>time.time()\<close> and
  \<^verbatim>\<open>datetime.now()\<close> return; a \<^verbatim>\<open>datetime\<close> is its POSIX time stamp.
\<close>

record fsnode =
  is_dir :: bool
  text_of :: string
  readable :: bool
  writable :: bool
  st_ctime :: real
  st_mtime :: real

record world =
  fs :: "(path \<times> fsnode) list"
  clock :: real
  disk_reads :: nat

definition path_exists :: "world \<Rightarrow> path \<Rightarrow> bool" where
  "path_exists w a = (map_of (fs w) a \<noteq> None)"

definition is_file :: "world \<Rightarrow> path \<Rightarrow> bool" where
  "is_file w a = (case map_of (fs w) a of None \<Rightarrow> False | Some n \<Rightarrow> \<not> is_dir n)"

definition stat :: "world \<Rightarrow> path \<Rightarrow> exn + (real \<times> real)" where
  "stat w a =
     (case map_of (fs w) a of
        None \<Rightarrow> Inl FileNotFoundError
      | Some n \<Rightarrow> Inr (st_ctime n, st_mtime n))"

definition read_text :: "world \<Rightarrow> path \<Rightarrow> (exn + string) \<times> world" where
  "read_text w a =
     (let w' = w\<lparr>disk_reads := Suc (disk_reads w)\<rparr> in
        case map_of (fs w) a of
          None \<Rightarrow> (Inl FileNotFoundError, w')
        | Some n \<Rightarrow>
            if is_dir n then (Inl IsADirectoryError, w')
            else if readable n then (Inr (text_of n), w')
            else (Inl PermissionError, w'))"

text \<open>
  \<^verbatim>\<open>write_text\<close> replaces the text of a writable file and stamps it with the clock; on a
  path that does not exist it creates the file (parent directories are not modelled:
  \<open>update_note\<close> writes only where the path exists).
\<close>

definition write_text :: "world \<Rightarrow> path \<Rightarrow> string \<Rightarrow> exn + world" where
  "write_text w a s =
     (case map_of (fs w) a of
        None \<Rightarrow>
          Inr (w\<lparr>fs := AList.update a
                 \<lparr>is_dir = False, text_of = s, readable = True, writable = True,
                  st_ctime = clock w, st_mtime = clock w\<rparr> (fs w)\<rparr>)
      | Some n \<Rightarrow>
          if is_dir n then Inl IsADirectoryError
          else if writable n
          then Inr (w\<lparr>fs := AList.update a
                      (n\<lparr>text_of := s, st_ctime := clock w, st_mtime := clock w\<rparr>) (fs w)\<rparr>)
          else Inl PermissionError)"

section \<open>The vault manager\<close>

record VaultMetadata =
  created :: real
  modified :: real
  tags :: "string set"
  links :: "string set"
  backlinks :: "string set"
  yaml_frontmatter :: pydict

record VaultNote =
  path :: path
  title :: string
  content :: string
  metadata :: VaultMetadata

record VaultManager =
  vault_path :: path
  metadata_cache :: "path \<rightharpoonup> VaultMetadata"
  note_cache :: "path \<rightharpoonup> string"
  note_list_cache :: "VaultNote list option"
  note_list_cache_time :: real
  cache_ttl :: real

text \<open>\<^verbatim>\<open>VaultManager.__init__\<close>: empty caches, a TTL of 30 seconds.\<close>

definition init :: "path \<Rightarrow> VaultManager" where
  "init v =
     \<lparr>vault_path = v, metadata_cache = Map.empty, note_cache = Map.empty,
      note_list_cache = None, note_list_cache_time = 0, cache_ttl = 30\<rparr>"

subsection \<open>\<^verbatim>\<open>_read_file\<close>, \<^verbatim>\<open>_write_file\<close>, \<^verbatim>\<open>invalidate_cache\<close>\<close>

text \<open>
  \<open>read_file\<close> returns the content cached under the path it is given, or reads the
  file, caches the content under that path and returns it; it returns \<^verbatim>\<open>None\<close> when
  the read raises.  \<open>invalidate_cache\<close> with a path deletes that key from the metadata
  cache and removes the notes with that path from a listing that is not empty
  (\<^verbatim>\<open>if self._note_list_cache:\<close>); without a path it clears the metadata cache and
  the listing.  It never touches the content cache.
\<close>

definition read_file ::
  "VaultManager \<Rightarrow> world \<Rightarrow> path \<Rightarrow> string option \<times> VaultManager \<times> world" where
  "read_file m w a =
     (case note_cache m a of
        Some s \<Rightarrow> (Some s, m, w)
      | None \<Rightarrow>
          (case read_text w a of
             (Inr s, w') \<Rightarrow> (Some s, m\<lparr>note_cache := (note_cache m)(a \<mapsto> s)\<rparr>, w')
           | (Inl e, w') \<Rightarrow> (None, m, w')))"

definition write_file :: "world \<Rightarrow> path \<Rightarrow> string \<Rightarrow> exn + world" where
  "write_file w a s = write_text w a s"

definition invalidate_cache :: "VaultManager \<Rightarrow> path option \<Rightarrow> VaultManager" where
  "invalidate_cache m po =
     (case po of
        None \<Rightarrow> m\<lparr>metadata_cache := Map.empty, note_list_cache := None\<rparr>
      | Some p \<Rightarrow>
          m\<lparr>metadata_cache := (metadata_cache m)(p := None),
            note_list_cache :=
              (case note_list_cache m of
                 None \<Rightarrow> None
               | Some ns \<Rightarrow> if ns = [] then Some [] else Some (filter (\<lambda>n. path n \<noteq> p) ns))\<rparr>)"

subsection \<open>\<^verbatim>\<open>_get_metadata\<close>\<close>

text \<open>
  \<open>extract_metadata\<close> is the body of the \<^verbatim>\<open>try\<close> block up to the construction of the
  metadata, statement by statement: the stat, the conversion of \<^verbatim>\<open>st_ctime\<close>, the
  conversion of \<^verbatim>\<open>st_mtime\<close>, the front matter, the tags and the links.  Each of the
  first four can raise.  \<open>get_metadata\<close> puts the cache lookup in front of it and the
  \<^verbatim>\<open>except Exception\<close> handler behind it.
\<close>

definition extract_metadata :: "library \<Rightarrow> world \<Rightarrow> path \<Rightarrow> string \<Rightarrow> exn + VaultMetadata" where
  "extract_metadata lib w a s =
     (case stat w a of
        Inl e \<Rightarrow> Inl e
      | Inr (ctime, mtime) \<Rightarrow>
          (case datetime_fromtimestamp lib ctime of
             Inl e \<Rightarrow> Inl e
           | Inr c \<Rightarrow>
               (case datetime_fromtimestamp lib mtime of
                  Inl e \<Rightarrow> Inl e
                | Inr mo \<Rightarrow>
                    (case parse_frontmatter lib s of
                       Inl e \<Rightarrow> Inl e
                     | Inr fm \<Rightarrow>
                         Inr \<lparr>created = c, modified = mo, tags = set (tag_findall s),
                              links = set (link_findall s), backlinks = {},
                              yaml_frontmatter = fm\<rparr>))))"

text \<open>
  The metadata of the handler.  Its two calls of \<^verbatim>\<open>datetime.now()\<close> read the clock
  one after the other; the model gives both the one value of the clock.
\<close>

definition fallback_metadata :: "world \<Rightarrow> VaultMetadata" where
  "fallback_metadata w =
     \<lparr>created = clock w, modified = clock w, tags = {}, links = {}, backlinks = {},
      yaml_frontmatter = []\<rparr>"

definition get_metadata ::
  "library \<Rightarrow> VaultManager \<Rightarrow> world \<Rightarrow> path \<Rightarrow> string \<Rightarrow> exn + (VaultMetadata \<times> VaultManager)" where
  "get_metadata lib m w a s =
     (case metadata_cache m a of
        Some md \<Rightarrow> Inr (md, m)
      | None \<Rightarrow>
          (case extract_metadata lib w a s of
             Inr md \<Rightarrow> Inr (md, m\<lparr>metadata_cache := (metadata_cache m)(a \<mapsto> md)\<rparr>)
           | Inl e \<Rightarrow> Inr (fallback_metadata w, m)))"

subsection \<open>\<^verbatim>\<open>get_note\<close>\<close>

definition get_note ::
  "library \<Rightarrow> VaultManager \<Rightarrow> world \<Rightarrow> path \<Rightarrow> VaultNote option \<times> VaultManager \<times> world" where
  "get_note lib m w p =
     (let absolute_path = joinpath (vault_path m) p in
        if \<not> path_exists w absolute_path \<or> \<not> is_file w absolute_path then (None, m, w)
        else
          (case read_file m w absolute_path of
             (None, m1, w1) \<Rightarrow> (None, m1, w1)
           | (Some s, m1, w1) \<Rightarrow>
               (case get_metadata lib m1 w1 absolute_path s of
                  Inl e \<Rightarrow> (None, m1, w1)
                | Inr (md, m2) \<Rightarrow>
                    (Some \<lparr>path = p, title = stem p, content = s, metadata = md\<rparr>, m2, w1))))"

subsection \<open>\<^verbatim>\<open>update_note\<close>\<close>

text \<open>
  The heading search is
  \<^verbatim>\<open>re.search(rf"(#+\s*{re.escape(escaped_heading)}.*\n)", existing_content, re.IGNORECASE)\<close>:
  one or more hash signs, white space, the heading text without regard to case, the rest of
  the line and its newline.  The hash signs and the white space are greedy and give back
  one character at a time; the search takes the first position of the text where the
  pattern matches, and \<open>heading_search\<close> returns \<^verbatim>\<open>match.end()\<close>.
  \<^verbatim>\<open>re.IGNORECASE\<close> compares the lower-case forms of two characters: below 256 the
  letters with a lower-case form are \<^verbatim>\<open>A\<close> to \<^verbatim>\<open>Z\<close> and the code points 192 to
  222 without the multiplication sign 215, each 32 below its lower-case form.
\<close>

definition is_space :: "char \<Rightarrow> bool" where
  "is_space c =
     (let n = (of_char c :: nat) in
        (9 \<le> n \<and> n \<le> 13) \<or> (28 \<le> n \<and> n \<le> 32) \<or> n = 133 \<or> n = 160)"

definition lower_char :: "char \<Rightarrow> char" where
  "lower_char c =
     (let n = (of_char c :: nat) in
        if (65 \<le> n \<and> n \<le> 90) \<or> (192 \<le> n \<and> n \<le> 222 \<and> n \<noteq> 215)
        then char_of (n + 32) else c)"

definition ci_prefix :: "string \<Rightarrow> string \<Rightarrow> bool" where
  "ci_prefix lit s = prefix (map lower_char lit) (map lower_char s)"

fun first_some :: "('a \<Rightarrow> 'b option) \<Rightarrow> 'a list \<Rightarrow> 'b option" where
  "first_some f [] = None"
| "first_some f (x # xs) = (case f x of Some y \<Rightarrow> Some y | None \<Rightarrow> first_some f xs)"

text \<open>The pattern from the heading text on, with \<open>k\<close> characters of \<open>s\<close> matched so far.\<close>

definition match_heading_text :: "string \<Rightarrow> string \<Rightarrow> nat \<Rightarrow> nat option" where
  "match_heading_text lit s k =
     (let rest = drop k s in
        if ci_prefix lit rest
        then (let line = drop (length lit) rest in
                if CHR ''\<newline>'' \<in> set line
                then Some (k + length lit
                           + length (takeWhile (\<lambda>c. c \<noteq> CHR ''\<newline>'') line) + 1)
                else None)
        else None)"

definition match_heading_here :: "string \<Rightarrow> string \<Rightarrow> nat option" where
  "match_heading_here lit s =
     (let hashes = length (takeWhile (\<lambda>c. c = CHR ''#'') s) in
        first_some
          (\<lambda>a. let spaces = length (takeWhile is_space (drop a s)) in
                 first_some (\<lambda>b. match_heading_text lit s (a + b)) (rev [0..<Suc spaces]))
          (rev [1..<Suc hashes]))"

fun heading_search :: "string \<Rightarrow> string \<Rightarrow> nat option" where
  "heading_search lit [] = None"
| "heading_search lit (c # cs) =
     (case match_heading_here lit (c # cs) of
        Some e \<Rightarrow> Some e
      | None \<Rightarrow> map_option Suc (heading_search lit cs))"

text \<open>\<^verbatim>\<open>heading.replace('"', '\\"')\<close>: a backslash in front of every double quote.\<close>

definition escape_quotes :: "string \<Rightarrow> string" where
  "escape_quotes h = concat (map (\<lambda>c. if c = CHR 0x22 then [CHR 0x5C, CHR 0x22] else [c]) h)"

text \<open>\<^verbatim>\<open>if heading:\<close> holds for a heading that is neither \<^verbatim>\<open>None\<close> nor empty.\<close>

definition heading_given :: "string option \<Rightarrow> bool" where
  "heading_given heading = (case heading of None \<Rightarrow> False | Some h \<Rightarrow> h \<noteq> [])"

definition new_content :: "string \<Rightarrow> string \<Rightarrow> string \<Rightarrow> string option \<Rightarrow> string" where
  "new_content existing_content s mode heading =
     (case (if heading_given heading then heading else None) of
        Some h \<Rightarrow>
          (case heading_search (escape_quotes h) existing_content of
             Some insert_pos \<Rightarrow>
               take insert_pos existing_content @ ''\<newline>'' @ s @ ''\<newline>''
               @ drop insert_pos existing_content
           | None \<Rightarrow>
               existing_content @ ''\<newline>\<newline>## '' @ h @ ''\<newline>'' @ s @ ''\<newline>'')
      | None \<Rightarrow>
          if mode = ''append'' then existing_content @ ''\<newline>'' @ s
          else if mode = ''prepend'' then s @ ''\<newline>'' @ existing_content
          else s)"

text \<open>
  \<open>update_note\<close> returns \<^verbatim>\<open>False\<close> where the path does not exist, where the existing
  content cannot be read, and where any later statement raises (the write, or
  \<^verbatim>\<open>relative_to\<close> for an absolute path outside the vault).  After the write it calls
  \<^verbatim>\<open>invalidate_cache\<close> with the path relative to the vault, and deletes the key
  \<^verbatim>\<open>path\<close>, the argument as it was given, from the content cache.
\<close>

definition update_note ::
  "VaultManager \<Rightarrow> world \<Rightarrow> path \<Rightarrow> string \<Rightarrow> string \<Rightarrow> string option
   \<Rightarrow> bool \<times> VaultManager \<times> world" where
  "update_note m w p s mode heading =
     (let absolute_path = joinpath (vault_path m) p in
        if \<not> path_exists w absolute_path then (False, m, w)
        else
          (case read_file m w absolute_path of
             (None, m1, w1) \<Rightarrow> (False, m1, w1)
           | (Some existing_content, m1, w1) \<Rightarrow>
               (case write_file w1 absolute_path (new_content existing_content s mode heading) of
                  Inl e \<Rightarrow> (False, m1, w1)
                | Inr w2 \<Rightarrow>
                    (case relative_to absolute_path (vault_path m1) of
                       Inl e \<Rightarrow> (False, m1, w2)
                     | Inr rel \<Rightarrow>
                         (let m2 = invalidate_cache m1 (Some rel) in
                            (True, m2\<lparr>note_cache := (note_cache m2)(p := None)\<rparr>, w2))))))"

subsection \<open>\<^verbatim>\<open>get_all_notes\<close>\<close>

text \<open>
  \<^verbatim>\<open>vault_path.rglob("*.md")\<close>: the paths below the vault whose last name ends in
  \<^verbatim>\<open>.md\<close>, in the order of the file system.  The coroutines that
  \<^verbatim>\<open>asyncio.gather\<close> runs work on different paths, hence on different cache keys, and
  their results are collected in the order of the files: \<open>process_files\<close> runs them one
  after the other.  A file for which \<open>get_note\<close> gives \<^verbatim>\<open>None\<close>, or whose processing
  raises, is left out.
\<close>

definition rglob_md :: "world \<Rightarrow> path \<Rightarrow> path list" where
  "rglob_md w v =
     filter (\<lambda>a. is_absolute a = is_absolute v \<and> strict_prefix (parts v) (parts a)
                 \<and> suffix ''.md'' (last (parts a)))
       (map fst (fs w))"

fun process_files ::
  "library \<Rightarrow> VaultManager \<Rightarrow> world \<Rightarrow> path list \<Rightarrow> VaultNote list \<times> VaultManager \<times> world" where
  "process_files lib m w [] = ([], m, w)"
| "process_files lib m w (file_path # rest) =
     (case relative_to file_path (vault_path m) of
        Inl e \<Rightarrow> process_files lib m w rest
      | Inr rel \<Rightarrow>
          (case get_note lib m w rel of
             (note, m1, w1) \<Rightarrow>
               (case process_files lib m1 w1 rest of
                  (notes, m2, w2) \<Rightarrow>
                    ((case note of None \<Rightarrow> notes | Some n \<Rightarrow> n # notes), m2, w2))))"

definition list_cache_valid :: "VaultManager \<Rightarrow> world \<Rightarrow> bool" where
  "list_cache_valid m w =
     (note_list_cache m \<noteq> None \<and> clock w - note_list_cache_time m < cache_ttl m)"

definition get_all_notes ::
  "library \<Rightarrow> VaultManager \<Rightarrow> world \<Rightarrow> VaultNote list \<times> VaultManager \<times> world" where
  "get_all_notes lib m w =
     (case (if list_cache_valid m w then note_list_cache m else None) of
        Some notes \<Rightarrow> (notes, m, w)
      | None \<Rightarrow>
          (case process_files lib m w (rglob_md w (vault_path m)) of
             (notes, m1, w1) \<Rightarrow>
               (notes, m1\<lparr>note_list_cache := Some notes, note_list_cache_time := clock w1\<rparr>, w1)))"

section \<open>The search engine\<close>

text \<open>
  \<^verbatim>\<open>rapidfuzz\<close> is a library outside this repository.  The scorer
  (\<^verbatim>\<open>fuzz.partial_ratio\<close>, a score between 0 and 100) is a parameter.
  \<open>process_extract\<close> is
  \<^verbatim>\<open>process.extract(query, choices, scorer=..., limit=...)\<close> as the library documents
  it: every choice is scored, the triples (choice, score, index) are ordered by falling
  score, choices of equal score in the order of the list, and the first \<^verbatim>\<open>limit\<close>
  are returned.  A negative \<^verbatim>\<open>limit\<close> makes the call raise (which exception depends
  on the build of the library; \<open>OtherError\<close> stands for it).
\<close>

type_synonym scorer = "string \<Rightarrow> string \<Rightarrow> real"

definition process_extract ::
  "scorer \<Rightarrow> string \<Rightarrow> string list \<Rightarrow> int \<Rightarrow> exn + (string \<times> real \<times> nat) list" where
  "process_extract sc query choices limit =
     (if limit < 0 then Inl OtherError
      else Inr (take (nat limit)
             (sort_key (\<lambda>(t, score, i). - score)
                (map (\<lambda>(i, t). (t, sc query t, i)) (enumerate 0 choices)))))"

text \<open>
  \<^verbatim>\<open>content[:200] + "..." if len(content) > 200 else content\<close>, the expression of
  \<^verbatim>\<open>search\<close> and of \<^verbatim>\<open>search_relevant_memories\<close>.
\<close>

definition preview :: "string \<Rightarrow> string" where
  "preview s = (if length s > 200 then take 200 s @ ''...'' else s)"

text \<open>A result dictionary, with its keys \<^verbatim>\<open>"title"\<close>, \<^verbatim>\<open>"score"\<close>, \<^verbatim>\<open>"content"\<close>.\<close>

record search_result =
  res_title :: string
  res_score :: real
  res_content :: string

text \<open>
  The loop of \<^verbatim>\<open>search\<close> over the matches; \<^verbatim>\<open>self.index[idx]\<close> raises
  \<^verbatim>\<open>IndexError\<close> out of range.  The threshold is whatever number the caller passes
  (the annotation \<^verbatim>\<open>int\<close> is not enforced).
\<close>

fun collect_results ::
  "(string \<times> string) list \<Rightarrow> real \<Rightarrow> (string \<times> real \<times> nat) list \<Rightarrow> exn + search_result list" where
  "collect_results index threshold [] = Inr []"
| "collect_results index threshold ((match_title, score, idx) # rest) =
     (if score \<ge> threshold
      then (if idx < length index
            then (case collect_results index threshold rest of
                    Inl e \<Rightarrow> Inl e
                  | Inr results \<Rightarrow>
                      Inr (\<lparr>res_title = match_title, res_score = score,
                            res_content = preview (snd (index ! idx))\<rparr> # results))
            else Inl IndexError)
      else collect_results index threshold rest)"

text \<open>\<^verbatim>\<open>search\<close> has no handler: what \<^verbatim>\<open>process.extract\<close> raises, it raises.\<close>

definition search ::
  "scorer \<Rightarrow> (string \<times> string) list \<Rightarrow> string \<Rightarrow> real \<Rightarrow> int \<Rightarrow> exn + search_result list" where
  "search sc index query threshold max_results =
     (case process_extract sc query (map fst index) max_results of
        Inl e \<Rightarrow> Inl e
      | Inr matches \<Rightarrow> collect_results index threshold matches)"

section \<open>Inputs of the examples\<close>

text \<open>
  The values \<^verbatim>\<open>yaml.safe_load\<close> gives on the three documents of the examples: a plain
  scalar loads as a string, an unclosed flow sequence raises a \<^verbatim>\<open>YAMLError\<close>, a
  one-line mapping loads as a dictionary.  No example loads another document.
\<close>

definition example_safe_load :: "string \<Rightarrow> exn + pyval" where
  "example_safe_load y =
     (if y = ''just text'' then Inr (PyStr ''just text'')
      else if y = ''a: [1'' then Inl YAMLError
      else if y = ''title: T'' then Inr (PyDict [(PyStr ''title'', PyStr ''T'')])
      else Inr PyNone)"

text \<open>
  The conversion of a time stamp in UTC: the seconds since 1970 of the years 1 to 9999
  convert, every other time stamp raises \<^verbatim>\<open>ValueError\<close> (year out of range).
\<close>

definition example_fromtimestamp :: "real \<Rightarrow> exn + real" where
  "example_fromtimestamp t =
     (if - 62135596800 \<le> t \<and> t < 253402300800 then Inr t else Inl ValueError)"

definition example_lib :: library where
  "example_lib =
     \<lparr>yaml_safe_load = example_safe_load, datetime_fromtimestamp = example_fromtimestamp\<rparr>"

text \<open>A vault at \<^verbatim>\<open>/vault\<close> that holds the one note \<^verbatim>\<open>n.md\<close>.\<close>

definition vault_root :: path where
  "vault_root = Path True [''vault'']"

definition note_rel :: path where
  "note_rel = Path False [''n.md'']"

definition note_abs :: path where
  "note_abs = Path True [''vault'', ''n.md'']"

definition file_node :: "string \<Rightarrow> fsnode" where
  "file_node s =
     \<lparr>is_dir = False, text_of = s, readable = True, writable = True, st_ctime = 0, st_mtime = 0\<rparr>"

definition example_world :: "string \<Rightarrow> world" where
  "example_world s = \<lparr>fs = [(note_abs, file_node s)], clock = 0, disk_reads = 0\<rparr>"

definition world_at :: "string \<Rightarrow> real \<Rightarrow> nat \<Rightarrow> world" where
  "world_at s t r = \<lparr>fs = [(note_abs, file_node s)], clock = t, disk_reads = r\<rparr>"

text \<open>
  The metadata of a note without front matter, tags or links; the manager after it has
  read the note (\<open>loaded\<close>) and after it has listed the vault at time \<open>t\<close>
  (\<open>listed\<close>); a manager that holds one metadata entry for the note (\<open>cached\<close>).
\<close>

definition plain_metadata :: VaultMetadata where
  "plain_metadata =
     \<lparr>created = 0, modified = 0, tags = {}, links = {}, backlinks = {}, yaml_frontmatter = []\<rparr>"

definition tagged_metadata :: "string \<Rightarrow> VaultMetadata" where
  "tagged_metadata t =
     \<lparr>created = 0, modified = 0, tags = {t}, links = {}, backlinks = {}, yaml_frontmatter = []\<rparr>"

definition example_note :: "string \<Rightarrow> VaultNote" where
  "example_note s = \<lparr>path = note_rel, title = ''n'', content = s, metadata = plain_metadata\<rparr>"

definition loaded :: "string \<Rightarrow> VaultManager" where
  "loaded s =
     (init vault_root)\<lparr>metadata_cache := [note_abs \<mapsto> plain_metadata],
                       note_cache := [note_abs \<mapsto> s]\<rparr>"

definition listed :: "string \<Rightarrow> real \<Rightarrow> VaultManager" where
  "listed s t = (loaded s)\<lparr>note_list_cache := Some [example_note s], note_list_cache_time := t\<rparr>"

definition cached :: "VaultMetadata \<Rightarrow> VaultManager" where
  "cached md = (init vault_root)\<lparr>metadata_cache := [note_abs \<mapsto> md]\<rparr>"

text \<open>
  A scorer for the examples: 100 for a query that is not empty and occurs in the title, as
  the partial ratio gives for an exact substring, and 0 for every other pair.
\<close>

definition substring_scorer :: scorer where
  "substring_scorer q t = (if q \<noteq> [] \<and> str_contains q t then 100 else 0)"

definition example_index :: "(string \<times> string) list" where
  "example_index = [(''Project Alpha'', ''alpha notes''), (''Alpha Two'', ''second'')]"

definition preview_index :: "(string \<times> string) list" where
  "preview_index =
     [(''Long note'', replicate 250 (CHR ''x'')), (''Short note'', replicate 150 (CHR ''y''))]"

lemmas example_defs =
  example_lib_def example_fromtimestamp_def example_world_def world_at_def plain_metadata_def example_note_def loaded_def listed_def
  init_def note_rel_def note_abs_def vault_root_def file_node_def

lemmas vault_defs =
  get_note_def read_file_def read_text_def get_metadata_def extract_metadata_def stat_def
  parse_frontmatter_def yaml_pattern_match_def joinpath_def relative_to_def path_exists_def
  is_file_def stem_def is_tag_char_def Let_def

section \<open>Facts about the patterns and the single operations\<close>

subsection \<open>What the front matter pattern matches\<close>

text \<open>
  \<open>str_contains\<close> is the substring relation, and the front matter pattern matches the
  contents that start with the opening fence, with the block up to the first closing
  fence as group 1.
\<close>

lemma str_contains_sublist: "str_contains sub s = sublist sub s"
proof (induction s)
  case Nil
  then show ?case by auto
next
  case (Cons c cs)
  then show ?case by (simp add: sublist_Cons_right)
qed

lemma lazy_until_Some:
  "lit \<noteq> [] \<Longrightarrow>
   lazy_until lit s = Some g \<longleftrightarrow>
     (\<exists>r. s = g @ lit @ r \<and> (\<forall>j < length g. \<not> prefix lit (drop j s)))"
proof (induction s arbitrary: g)
  case Nil
  then show ?case by auto
next
  case (Cons c cs)
  show ?case
  proof (cases "prefix lit (c # cs)")
    case True
    then obtain r where r: "c # cs = lit @ r" by (auto simp: prefix_def)
    show ?thesis
    proof
      assume "lazy_until lit (c # cs) = Some g"
      with True have "g = []" by simp
      with r show "\<exists>r. c # cs = g @ lit @ r \<and> (\<forall>j<length g. \<not> prefix lit (drop j (c # cs)))"
        by simp
    next
      assume "\<exists>r. c # cs = g @ lit @ r \<and> (\<forall>j<length g. \<not> prefix lit (drop j (c # cs)))"
      then have "\<forall>j<length g. \<not> prefix lit (drop j (c # cs))" by blast
      with True have "g = []" by (cases g) auto
      with True show "lazy_until lit (c # cs) = Some g" by simp
    qed
  next
    case False
    show ?thesis
    proof
      assume "lazy_until lit (c # cs) = Some g"
      with False obtain g' where g': "lazy_until lit cs = Some g'" and g: "g = c # g'"
        by auto
      from Cons.IH [OF Cons.prems, of g'] g' obtain r where
        r: "cs = g' @ lit @ r" and first: "\<forall>j<length g'. \<not> prefix lit (drop j cs)"
        by blast
      have "\<forall>j<length g. \<not> prefix lit (drop j (c # cs))"
      proof (intro allI impI)
        fix j assume j: "j < length g"
        show "\<not> prefix lit (drop j (c # cs))"
        proof (cases j)
          case 0
          with False show ?thesis by simp
        next
          case (Suc j')
          with j g first show ?thesis by simp
        qed
      qed
      with r g show "\<exists>r. c # cs = g @ lit @ r \<and> (\<forall>j<length g. \<not> prefix lit (drop j (c # cs)))"
        by simp
    next
      assume "\<exists>r. c # cs = g @ lit @ r \<and> (\<forall>j<length g. \<not> prefix lit (drop j (c # cs)))"
      then obtain r where r: "c # cs = g @ lit @ r"
        and first: "\<forall>j<length g. \<not> prefix lit (drop j (c # cs))" by blast
      from False r have "g \<noteq> []" by auto
      with r obtain g' where g: "g = c # g'" and cs: "cs = g' @ lit @ r"
        by (cases g) auto
      have "\<forall>j<length g'. \<not> prefix lit (drop j cs)"
      proof (intro allI impI)
        fix j assume "j < length g'"
        with g have "Suc j < length g" by simp
        with first have "\<not> prefix lit (drop (Suc j) (c # cs))" by blast
        then show "\<not> prefix lit (drop j cs)" by simp
      qed
      with cs Cons.IH [OF Cons.prems, of g'] have "lazy_until lit cs = Some g'" by blast
      with False g show "lazy_until lit (c # cs) = Some g" by simp
    qed
  qed
qed

lemma yaml_pattern_match_Some:
  "yaml_pattern_match s = Some block \<longleftrightarrow>
     (\<exists>r. s = ''---\<newline>'' @ block @ ''\<newline>---'' @ r
          \<and> (\<forall>j < length block. \<not> prefix ''\<newline>---'' (drop j (block @ ''\<newline>---'' @ r))))"
proof
  assume a: "yaml_pattern_match s = Some block"
  then have p: "prefix ''---\<newline>'' s" and l: "lazy_until ''\<newline>---'' (drop 4 s) = Some block"
    by (auto simp: yaml_pattern_match_def split: if_splits)
  from p obtain t where t: "s = ''---\<newline>'' @ t" by (auto simp: prefix_def)
  with l have "lazy_until ''\<newline>---'' t = Some block" by simp
  then obtain r where "t = block @ ''\<newline>---'' @ r"
    and "\<forall>j < length block. \<not> prefix ''\<newline>---'' (drop j t)"
    using lazy_until_Some [of "''\<newline>---''" t block] by auto
  with t show "\<exists>r. s = ''---\<newline>'' @ block @ ''\<newline>---'' @ r
          \<and> (\<forall>j < length block. \<not> prefix ''\<newline>---'' (drop j (block @ ''\<newline>---'' @ r)))"
    by auto
next
  assume "\<exists>r. s = ''---\<newline>'' @ block @ ''\<newline>---'' @ r
          \<and> (\<forall>j < length block. \<not> prefix ''\<newline>---'' (drop j (block @ ''\<newline>---'' @ r)))"
  then obtain r where s: "s = ''---\<newline>'' @ block @ ''\<newline>---'' @ r"
    and first: "\<forall>j < length block. \<not> prefix ''\<newline>---'' (drop j (block @ ''\<newline>---'' @ r))"
    by blast
  then have "lazy_until ''\<newline>---'' (block @ ''\<newline>---'' @ r) = Some block"
    using lazy_until_Some [of "''\<newline>---''" "block @ ''\<newline>---'' @ r" block] by blast
  with s show "yaml_pattern_match s = Some block"
    by (simp add: yaml_pattern_match_def)
qed

subsection \<open>Cache hit, extraction, failure\<close>

lemma get_metadata_hit:
  "metadata_cache m a = Some md \<Longrightarrow> get_metadata lib m w a s = Inr (md, m)"
  by (simp add: get_metadata_def)

lemma get_metadata_miss:
  "metadata_cache m a = None \<Longrightarrow> stat w a = Inr (ctime, mtime) \<Longrightarrow>
   datetime_fromtimestamp lib ctime = Inr c \<Longrightarrow> datetime_fromtimestamp lib mtime = Inr mo \<Longrightarrow>
   parse_frontmatter lib s = Inr fm \<Longrightarrow>
   get_metadata lib m w a s =
     Inr (\<lparr>created = c, modified = mo, tags = set (tag_findall s),
           links = set (link_findall s), backlinks = {}, yaml_frontmatter = fm\<rparr>,
          m\<lparr>metadata_cache := (metadata_cache m)
             (a \<mapsto> \<lparr>created = c, modified = mo, tags = set (tag_findall s),
                   links = set (link_findall s), backlinks = {}, yaml_frontmatter = fm\<rparr>)\<rparr>)"
  by (simp add: get_metadata_def extract_metadata_def)

lemma get_metadata_failure:
  "metadata_cache m a = None \<Longrightarrow> extract_metadata lib w a s = Inl e \<Longrightarrow>
   get_metadata lib m w a s = Inr (fallback_metadata w, m)"
  by (simp add: get_metadata_def)

lemma get_metadata_frame:
  assumes "get_metadata lib m w a s = Inr (md, m')"
  shows "note_cache m' = note_cache m \<and> vault_path m' = vault_path m"
  using assms by (auto simp: get_metadata_def split: option.splits sum.splits)

lemma get_metadata_Inr: "\<exists>md m'. get_metadata lib m w a s = Inr (md, m')"
  by (auto simp: get_metadata_def split: option.splits sum.splits)

lemma parse_frontmatter_template:
  assumes "yaml_pattern_match s = Some block"
    and "str_contains ''{{'' block \<or> str_contains ''{%'' block"
  shows "parse_frontmatter lib s = Inr [(PyStr ''_is_template'', PyBool True)]"
  using assms by (simp add: parse_frontmatter_def)

subsection \<open>Reading, writing and fetching a note\<close>

lemma read_file_cached:
  "note_cache m a = Some s \<Longrightarrow> read_file m w a = (Some s, m, w)"
  by (simp add: read_file_def)

lemma read_file_Some:
  assumes "read_file m w a = (Some s, m1, w1)"
  shows "note_cache m1 a = Some s \<and> fs w1 = fs w \<and> clock w1 = clock w
         \<and> vault_path m1 = vault_path m \<and> metadata_cache m1 = metadata_cache m"
  using assms
  by (auto simp: read_file_def read_text_def Let_def split: option.splits sum.splits if_splits)


lemma get_note_cached:
  assumes c: "note_cache m (joinpath (vault_path m) p) = Some s"
    and f: "is_file w (joinpath (vault_path m) p)"
  shows "\<exists>n m'. get_note lib m w p = (Some n, m', w) \<and> content n = s"
proof -
  let ?a = "joinpath (vault_path m) p"
  from f have e: "path_exists w ?a" by (auto simp: is_file_def path_exists_def split: option.splits)
  obtain md m' where "get_metadata lib m w ?a s = Inr (md, m')"
    using get_metadata_Inr by blast
  with e f c show ?thesis by (simp add: get_note_def read_file_cached)
qed

lemma get_note_Some:
  assumes "get_note lib m w p = (Some n, m1, w1)"
  shows "note_cache m1 (joinpath (vault_path m) p) = Some (content n)
         \<and> is_file w (joinpath (vault_path m) p) \<and> fs w1 = fs w \<and> vault_path m1 = vault_path m"
proof -
  let ?a = "joinpath (vault_path m) p"
  from assms obtain s m0 md where
    f: "is_file w ?a"
    and r: "read_file m w ?a = (Some s, m0, w1)"
    and g: "get_metadata lib m0 w1 ?a s = Inr (md, m1)"
    and n: "content n = s"
    by (auto simp: get_note_def Let_def split: if_splits option.splits sum.splits prod.splits)
  from read_file_Some [OF r] get_metadata_frame [OF g] f n show ?thesis by simp
qed

lemma write_text_result:
  assumes "write_text w a s = Inr w'"
  shows "map_option text_of (map_of (fs w') a) = Some s \<and> is_file w' a
         \<and> clock w' = clock w \<and> disk_reads w' = disk_reads w"
  using assms
  by (auto simp: write_text_def is_file_def update_conv' split: option.splits if_splits)

lemma get_note_Some_steps:
  assumes "get_note lib m w p = (Some n, m', w')"
  shows "\<exists>m0 st. read_file m w (joinpath (vault_path m) p) = (Some (content n), m0, w')
           \<and> get_metadata lib m0 w' (joinpath (vault_path m) p) (content n)
               = Inr (metadata n, m')
           \<and> stat w' (joinpath (vault_path m) p) = Inr st"
proof -
  let ?a = "joinpath (vault_path m) p"
  from assms obtain s m0 md where
    e: "path_exists w ?a"
    and r: "read_file m w ?a = (Some s, m0, w')"
    and g: "get_metadata lib m0 w' ?a s = Inr (md, m')"
    and n: "n = \<lparr>path = p, title = stem p, content = s, metadata = md\<rparr>"
    by (auto simp: get_note_def Let_def split: if_splits option.splits sum.splits prod.splits)
  from read_file_Some [OF r] have "fs w' = fs w" by simp
  with e obtain st where "stat w' ?a = Inr st"
    by (auto simp: stat_def path_exists_def split: option.splits)
  with r g n show ?thesis by simp
qed

lemma joinpath_differs:
  "\<not> is_absolute p \<Longrightarrow> is_absolute v \<or> parts v \<noteq> [] \<Longrightarrow> joinpath v p \<noteq> p"
  by (cases p) (auto simp: joinpath_def)

lemma relative_to_joinpath:
  "\<not> is_absolute p \<Longrightarrow> relative_to (joinpath v p) v = Inr (Path False (parts p))"
  by (simp add: relative_to_def joinpath_def)

section \<open>Properties of the metadata extractor\<close>

text \<open>
  Claim C4.  \<open>get_metadata\<close> never raises: for every library, manager, world, path and
  content it returns a metadata structure, and when the extraction fails on a path
  without cache entry (the stat fails, a time stamp does not convert, or the YAML library
  raises something that is not a \<^verbatim>\<open>YAMLError\<close>) the structure is the degenerate one:
  both time stamps the current time, no tags, no links, empty front matter, and nothing
  is cached.
\<close>

theorem get_metadata_total:
  "\<exists>md m'. get_metadata lib m w a s = Inr (md, m')
     \<and> (metadata_cache m a = None \<and> (\<exists>e. extract_metadata lib w a s = Inl e)
          \<longrightarrow> md = fallback_metadata w \<and> m' = m)"
proof (cases "metadata_cache m a")
  case (Some md)
  then show ?thesis by (simp add: get_metadata_def)
next
  case None
  then show ?thesis by (cases "extract_metadata lib w a s") (simp_all add: get_metadata_def)
qed

theorem get_metadata_total_witness:
  "get_metadata example_lib (init vault_root) (example_world ''x'') note_rel
     ''---\<newline>a: [1\<newline>---\<newline>{{ broken''
   = Inr (\<lparr>created = 0, modified = 0, tags = {}, links = {}, backlinks = {},
           yaml_frontmatter = []\<rparr>, init vault_root)"
  using get_metadata_total [of example_lib "init vault_root" "example_world ''x''" note_rel
      "''---\<newline>a: [1\<newline>---\<newline>{{ broken''"]
  by (simp add: get_metadata_def extract_metadata_def stat_def example_world_def example_lib_def example_fromtimestamp_def init_def
      note_rel_def note_abs_def fallback_metadata_def)

text \<open>
  The handler also covers a time stamp that does not convert: a file whose
  \<^verbatim>\<open>st_mtime\<close> is \<open>2 ^ 40\<close> gets the degenerate metadata, uncached, under the
  conversion of the examples.
\<close>

lemma get_metadata_out_of_range:
  "get_metadata example_lib (init vault_root)
     \<lparr>fs = [(note_abs, (file_node ''#tag'')\<lparr>st_mtime := 2 ^ 40\<rparr>)], clock = 7, disk_reads = 0\<rparr>
     note_abs ''#tag''
   = Inr (\<lparr>created = 7, modified = 7, tags = {}, links = {}, backlinks = {},
           yaml_frontmatter = []\<rparr>, init vault_root)"
  by (simp add: get_metadata_def extract_metadata_def stat_def fallback_metadata_def
      example_defs)

text \<open>
  Claim C5, amended.  Let the content start with a front matter block whose text contains
  \<^verbatim>\<open>{{\<close> or \<^verbatim>\<open>{%\<close>.  When the path has no metadata cache entry, the stat
  succeeds and both of its time stamps convert, the metadata that \<open>get_metadata\<close>
  extracts has the front matter \<^verbatim>\<open>{"_is_template": True}\<close>, whatever the YAML library
  would do with the block; and under the same conditions so has every note that
  \<open>get_note\<close> returns with this content.  (With a cache entry the entry is returned,
  and when the stat or a conversion raises the front matter is empty: C3 and C4.)
\<close>

theorem template_frontmatter:
  assumes "yaml_pattern_match s = Some block"
    and "str_contains ''{{'' block \<or> str_contains ''{%'' block"
  shows "(\<forall>m w a ctime mtime c mo.
            metadata_cache m a = None \<longrightarrow> stat w a = Inr (ctime, mtime) \<longrightarrow>
            datetime_fromtimestamp lib ctime = Inr c \<longrightarrow>
            datetime_fromtimestamp lib mtime = Inr mo \<longrightarrow>
            (\<exists>md m'. get_metadata lib m w a s = Inr (md, m')
               \<and> yaml_frontmatter md = [(PyStr ''_is_template'', PyBool True)]))
       \<and> (\<forall>m w p n m' w' ctime mtime c mo.
            metadata_cache m (joinpath (vault_path m) p) = None \<longrightarrow>
            stat w (joinpath (vault_path m) p) = Inr (ctime, mtime) \<longrightarrow>
            datetime_fromtimestamp lib ctime = Inr c \<longrightarrow>
            datetime_fromtimestamp lib mtime = Inr mo \<longrightarrow>
            get_note lib m w p = (Some n, m', w') \<longrightarrow> content n = s \<longrightarrow>
            yaml_frontmatter (metadata n) = [(PyStr ''_is_template'', PyBool True)])"
proof -
  note fm = parse_frontmatter_template [OF assms, of lib]
  have direct: "\<exists>md m'. get_metadata lib m w a s = Inr (md, m')
               \<and> yaml_frontmatter md = [(PyStr ''_is_template'', PyBool True)]"
    if "metadata_cache m a = None" and "stat w a = Inr (ctime, mtime)"
      and "datetime_fromtimestamp lib ctime = Inr c"
      and "datetime_fromtimestamp lib mtime = Inr mo"
    for m w a ctime mtime c mo
    using that fm by (simp add: get_metadata_miss)
  have via_note: "yaml_frontmatter (metadata n) = [(PyStr ''_is_template'', PyBool True)]"
    if miss: "metadata_cache m (joinpath (vault_path m) p) = None"
      and st: "stat w (joinpath (vault_path m) p) = Inr (ctime, mtime)"
      and cv: "datetime_fromtimestamp lib ctime = Inr c"
        "datetime_fromtimestamp lib mtime = Inr mo"
      and g: "get_note lib m w p = (Some n, m', w')" and c: "content n = s"
    for m w p n m' w' ctime mtime c mo
  proof -
    let ?a = "joinpath (vault_path m) p"
    from get_note_Some_steps [OF g] c obtain m0 where
      r: "read_file m w ?a = (Some s, m0, w')"
      and gm: "get_metadata lib m0 w' ?a s = Inr (metadata n, m')"
      by auto
    from read_file_Some [OF r] miss st have "metadata_cache m0 ?a = None"
      and "stat w' ?a = Inr (ctime, mtime)" by (simp_all add: stat_def)
    from direct [OF this cv] gm show ?thesis by simp
  qed
  show ?thesis using direct via_note by blast
qed

theorem template_frontmatter_witness:
  "yaml_pattern_match ''---\<newline>title: {{title}}\<newline>a: [1\<newline>---\<newline>body'' = Some ''title: {{title}}\<newline>a: [1''
   \<and> str_contains ''{{'' ''title: {{title}}\<newline>a: [1''
   \<and> get_metadata example_lib (init vault_root) (example_world ''x'') note_abs ''---\<newline>title: {{title}}\<newline>a: [1\<newline>---\<newline>body''
      = Inr (\<lparr>created = 0, modified = 0, tags = {}, links = {}, backlinks = {},
              yaml_frontmatter = [(PyStr ''_is_template'', PyBool True)]\<rparr>,
             cached \<lparr>created = 0, modified = 0, tags = {}, links = {}, backlinks = {},
              yaml_frontmatter = [(PyStr ''_is_template'', PyBool True)]\<rparr>)"
  using template_frontmatter [of "''---\<newline>title: {{title}}\<newline>a: [1\<newline>---\<newline>body''"
      "''title: {{title}}\<newline>a: [1''" example_lib]
  by (simp add: get_metadata_def extract_metadata_def stat_def parse_frontmatter_def
      yaml_pattern_match_def is_tag_char_def cached_def example_defs)

text \<open>
  The claim as it stands fails on a path that has a metadata cache entry.  The note
  \<^verbatim>\<open>/vault/n.md\<close> holds plain text and is fetched by its absolute path; then
  \<open>update_note\<close> replaces its text by a template and, for an absolute path, deletes the
  content cache entry but not the metadata entry; the next \<open>get_note\<close> reads the
  template from the file and returns it with the cached, empty front matter.
\<close>

theorem template_frontmatter_counterexample:
  "get_note example_lib (init vault_root) (world_at ''plain'' 0 0) note_abs
     = (Some \<lparr>path = note_abs, title = ''n'', content = ''plain'', metadata = plain_metadata\<rparr>,
        loaded ''plain'', world_at ''plain'' 0 1)
   \<and> update_note (loaded ''plain'') (world_at ''plain'' 0 1) note_abs ''---\<newline>title: {{title}}\<newline>a: [1\<newline>---\<newline>body'' ''replace'' None
     = (True, cached plain_metadata, world_at ''---\<newline>title: {{title}}\<newline>a: [1\<newline>---\<newline>body'' 0 1)
   \<and> get_note example_lib (cached plain_metadata) (world_at ''---\<newline>title: {{title}}\<newline>a: [1\<newline>---\<newline>body'' 0 1) note_abs
     = (Some \<lparr>path = note_abs, title = ''n'', content = ''---\<newline>title: {{title}}\<newline>a: [1\<newline>---\<newline>body'', metadata = plain_metadata\<rparr>,
        loaded ''---\<newline>title: {{title}}\<newline>a: [1\<newline>---\<newline>body'', world_at ''---\<newline>title: {{title}}\<newline>a: [1\<newline>---\<newline>body'' 0 2)
   \<and> yaml_pattern_match ''---\<newline>title: {{title}}\<newline>a: [1\<newline>---\<newline>body'' = Some ''title: {{title}}\<newline>a: [1''
   \<and> str_contains ''{{'' ''title: {{title}}\<newline>a: [1''
   \<and> yaml_frontmatter plain_metadata \<noteq> [(PyStr ''_is_template'', PyBool True)]"
  by (simp add: vault_defs example_defs update_note_def write_file_def write_text_def
      invalidate_cache_def new_content_def heading_given_def cached_def)

text \<open>
  Claim C6, amended.  Let the content start with a front matter block that is not a
  template, on a path that has no metadata cache entry and whose stat succeeds with time
  stamps that convert.  When \<^verbatim>\<open>yaml.safe_load\<close> raises a \<^verbatim>\<open>YAMLError\<close> on the
  block, the extracted front matter is \<^verbatim>\<open>{"_raw_frontmatter": block}\<close>; when it
  returns a value, the front matter is that value if it is a mapping and the empty
  mapping if it is not (the \<^verbatim>\<open>isinstance(parsed, dict)\<close> guard): a block that parses
  to a scalar, a list or \<^verbatim>\<open>None\<close> is not kept.
\<close>

theorem raw_frontmatter_on_yaml_error:
  assumes "yaml_pattern_match s = Some block"
    and "\<not> str_contains ''{{'' block" and "\<not> str_contains ''{%'' block"
    and "metadata_cache m a = None"
    and "stat w a = Inr (ctime, mtime)"
    and "datetime_fromtimestamp lib ctime = Inr c"
    and "datetime_fromtimestamp lib mtime = Inr mo"
  shows "(yaml_safe_load lib block = Inl YAMLError \<longrightarrow>
            (\<exists>md m'. get_metadata lib m w a s = Inr (md, m')
               \<and> yaml_frontmatter md = [(PyStr ''_raw_frontmatter'', PyStr block)]))
       \<and> (\<forall>v. yaml_safe_load lib block = Inr v \<longrightarrow>
            (\<exists>md m'. get_metadata lib m w a s = Inr (md, m')
               \<and> yaml_frontmatter md = (case v of PyDict d \<Rightarrow> d | _ \<Rightarrow> [])))"
proof -
  have raw: "parse_frontmatter lib s = Inr [(PyStr ''_raw_frontmatter'', PyStr block)]"
    if "yaml_safe_load lib block = Inl YAMLError"
    using that assms(1-3) by (simp add: parse_frontmatter_def)
  have parsed: "parse_frontmatter lib s = Inr (case v of PyDict d \<Rightarrow> d | _ \<Rightarrow> [])"
    if "yaml_safe_load lib block = Inr v" for v
    using that assms(1-3) by (simp add: parse_frontmatter_def split: pyval.splits)
  show ?thesis
    using raw parsed assms(4-7) by (simp add: get_metadata_miss)
qed

theorem raw_frontmatter_on_yaml_error_witness:
  "yaml_pattern_match ''---\<newline>a: [1\<newline>---\<newline>body'' = Some ''a: [1''
   \<and> yaml_safe_load example_lib ''a: [1'' = Inl YAMLError
   \<and> get_metadata example_lib (init vault_root) (example_world ''x'') note_abs
        ''---\<newline>a: [1\<newline>---\<newline>body''
      = Inr (\<lparr>created = 0, modified = 0, tags = {}, links = {}, backlinks = {},
              yaml_frontmatter = [(PyStr ''_raw_frontmatter'', PyStr ''a: [1'')]\<rparr>,
             cached \<lparr>created = 0, modified = 0, tags = {}, links = {}, backlinks = {},
              yaml_frontmatter = [(PyStr ''_raw_frontmatter'', PyStr ''a: [1'')]\<rparr>)"
  using raw_frontmatter_on_yaml_error [of "''---\<newline>a: [1\<newline>---\<newline>body''" "''a: [1''"
      "init vault_root" note_abs "example_world ''x''" 0 0 example_lib 0 0]
  by (simp add: get_metadata_def extract_metadata_def stat_def parse_frontmatter_def
      yaml_pattern_match_def is_tag_char_def example_safe_load_def cached_def example_defs)

theorem raw_frontmatter_counterexample:
  "yaml_pattern_match ''---\<newline>just text\<newline>---\<newline>body'' = Some ''just text''
   \<and> \<not> str_contains ''{{'' ''just text'' \<and> \<not> str_contains ''{%'' ''just text''
   \<and> yaml_safe_load example_lib ''just text'' = Inr (PyStr ''just text'')
   \<and> get_metadata example_lib (init vault_root) (example_world ''x'') note_abs
        ''---\<newline>just text\<newline>---\<newline>body''
      = Inr (\<lparr>created = 0, modified = 0, tags = {}, links = {}, backlinks = {},
              yaml_frontmatter = []\<rparr>,
             cached \<lparr>created = 0, modified = 0, tags = {}, links = {}, backlinks = {},
              yaml_frontmatter = []\<rparr>)
   \<and> [] \<noteq> [(PyStr ''_raw_frontmatter'', PyStr ''just text'')]"
  by (simp add: get_metadata_def extract_metadata_def stat_def parse_frontmatter_def
      yaml_pattern_match_def is_tag_char_def example_safe_load_def cached_def example_defs)

text \<open>
  Claim C3, amended.  On a path without cache entry, when the stat succeeds, both time
  stamps convert and the YAML library raises nothing but a \<^verbatim>\<open>YAMLError\<close>,
  \<open>get_metadata\<close> returns the metadata determined by the content, the stat and the
  library functions of that call, and stores it under the path.  On a path with a cache
  entry it returns the entry as it stands in the cache at that moment and leaves the
  manager as it is, whatever content, file system, clock and library functions it is
  given: two calls in direct succession with the same path and content agree, and a call
  with different content gets the stored structure, not one extracted from its own
  content.  (The stored object is shared with the callers, and
  \<^verbatim>\<open>strengthen_relationship\<close> changes its front matter in place: between two calls
  the entry can change without an invalidation.  A state of the manager holds the entry
  as it is at that time.)
\<close>

theorem get_metadata_memoised:
  "(metadata_cache m a = None \<longrightarrow> stat w a = Inr (ctime, mtime) \<longrightarrow>
      datetime_fromtimestamp lib ctime = Inr c \<longrightarrow>
      datetime_fromtimestamp lib mtime = Inr mo \<longrightarrow>
      parse_frontmatter lib s = Inr fm \<longrightarrow>
      (\<exists>md. md = \<lparr>created = c, modified = mo, tags = set (tag_findall s),
                   links = set (link_findall s), backlinks = {}, yaml_frontmatter = fm\<rparr>
         \<and> get_metadata lib m w a s
             = Inr (md, m\<lparr>metadata_cache := (metadata_cache m)(a \<mapsto> md)\<rparr>)))
   \<and> (\<forall>md. metadata_cache m a = Some md \<longrightarrow> get_metadata lib m w a s = Inr (md, m))"
  by (simp add: get_metadata_miss get_metadata_hit)

theorem get_metadata_memoised_witness:
  "get_metadata example_lib (init vault_root) (example_world ''#old'') note_abs ''#old''
     = Inr (tagged_metadata ''old'', cached (tagged_metadata ''old''))
   \<and> get_metadata example_lib (cached (tagged_metadata ''old'')) (example_world ''#old'')
       note_abs ''#old''
     = Inr (tagged_metadata ''old'', cached (tagged_metadata ''old''))"
  using get_metadata_memoised [of "init vault_root" note_abs "example_world ''#old''" 0 0
      example_lib 0 0 "''#old''" "[]"]
    get_metadata_memoised [of "cached (tagged_metadata ''old'')" note_abs
      "example_world ''#old''" 0 0 example_lib 0 0 "''#old''" "[]"]
  by (simp add: get_metadata_def extract_metadata_def stat_def parse_frontmatter_def
      yaml_pattern_match_def is_tag_char_def cached_def tagged_metadata_def example_defs)

theorem get_metadata_stale_counterexample:
  "get_metadata example_lib (init vault_root) (example_world ''#old'') note_abs ''#old''
     = Inr (tagged_metadata ''old'', cached (tagged_metadata ''old''))
   \<and> get_metadata example_lib (cached (tagged_metadata ''old'')) (example_world ''#new'')
       note_abs ''#new''
     = Inr (tagged_metadata ''old'', cached (tagged_metadata ''old''))
   \<and> get_metadata example_lib (init vault_root) (example_world ''#new'') note_abs ''#new''
     = Inr (tagged_metadata ''new'', cached (tagged_metadata ''new''))
   \<and> tagged_metadata ''old'' \<noteq> tagged_metadata ''new''"
  by (simp add: get_metadata_def extract_metadata_def stat_def parse_frontmatter_def
      yaml_pattern_match_def is_tag_char_def cached_def tagged_metadata_def example_defs)

section \<open>Properties of the note cache\<close>

text \<open>
  Claim C1 does not hold of the code.  Both caches are keyed by the absolute path
  (\<open>read_file\<close> and \<open>get_metadata\<close> are called with \<^verbatim>\<open>absolute_path\<close>), and
  \<open>update_note\<close> deletes the relative path from them.  Whenever the two differ (as
  they do for every relative path in a vault that is not the empty relative path, by
  \<open>joinpath_differs\<close>) and
  \<open>update_note\<close> returns \<^verbatim>\<open>True\<close>, the file holds the new content, and the
  \<open>get_note\<close> that follows reads nothing and returns the content from before the
  update.
\<close>

theorem update_note_keeps_stale_content:
  assumes ok: "update_note m w p s mode heading = (True, m', w')"
    and key: "joinpath (vault_path m) p \<noteq> p"
  shows "\<exists>existing n m''.
           map_option text_of (map_of (fs w') (joinpath (vault_path m) p))
             = Some (new_content existing s mode heading)
         \<and> get_note lib m' w' p = (Some n, m'', w')
         \<and> content n = existing"
proof -
  let ?a = "joinpath (vault_path m) p"
  from ok obtain existing m1 w1 rel where
    r: "read_file m w ?a = (Some existing, m1, w1)"
    and wr: "write_file w1 ?a (new_content existing s mode heading) = Inr w'"
    and m': "m' = (invalidate_cache m1 (Some rel))
                    \<lparr>note_cache := (note_cache (invalidate_cache m1 (Some rel)))(p := None)\<rparr>"
    by (auto simp: update_note_def Let_def split: if_splits option.splits sum.splits prod.splits)
  from read_file_Some [OF r] have c1: "note_cache m1 ?a = Some existing"
    and v1: "vault_path m1 = vault_path m" by simp_all
  from m' v1 have v': "vault_path m' = vault_path m"
    by (simp add: invalidate_cache_def)
  from m' c1 key have c': "note_cache m' ?a = Some existing"
    by (simp add: invalidate_cache_def)
  from wr have w: "map_option text_of (map_of (fs w') ?a) = Some (new_content existing s mode heading)"
    and f: "is_file w' ?a"
    using write_text_result [of w1 ?a _ w'] by (simp_all add: write_file_def)
  from get_note_cached [of m' p existing w' lib] c' f v'
  obtain n m'' where "get_note lib m' w' p = (Some n, m'', w')" "content n = existing"
    by auto
  with w show ?thesis by blast
qed

theorem update_note_keeps_stale_content_witness:
  "update_note (init vault_root) (example_world ''old'') note_rel ''new'' ''append'' None
     = (True, (init vault_root)\<lparr>note_cache := [note_abs \<mapsto> ''old'']\<rparr>,
        \<lparr>fs = [(note_abs, file_node ''old\<newline>new'')], clock = 0, disk_reads = 1\<rparr>)
   \<and> get_note example_lib ((init vault_root)\<lparr>note_cache := [note_abs \<mapsto> ''old'']\<rparr>)
        \<lparr>fs = [(note_abs, file_node ''old\<newline>new'')], clock = 0, disk_reads = 1\<rparr> note_rel
     = (Some \<lparr>path = note_rel, title = ''n'', content = ''old'',
              metadata = \<lparr>created = 0, modified = 0, tags = {}, links = {}, backlinks = {},
                yaml_frontmatter = []\<rparr>\<rparr>,
        (init vault_root)\<lparr>note_cache := [note_abs \<mapsto> ''old''],
          metadata_cache := [note_abs \<mapsto> \<lparr>created = 0, modified = 0, tags = {}, links = {},
            backlinks = {}, yaml_frontmatter = []\<rparr>]\<rparr>,
        \<lparr>fs = [(note_abs, file_node ''old\<newline>new'')], clock = 0, disk_reads = 1\<rparr>)"
  using update_note_keeps_stale_content [of "init vault_root" "example_world ''old''" note_rel
      "''new''" "''append''" None "(init vault_root)\<lparr>note_cache := [note_abs \<mapsto> ''old'']\<rparr>"
      "\<lparr>fs = [(note_abs, file_node ''old\<newline>new'')], clock = 0, disk_reads = 1\<rparr>"
      example_lib]
  by (simp add: update_note_def get_note_def read_file_def read_text_def write_file_def
      write_text_def relative_to_def joinpath_def invalidate_cache_def path_exists_def is_file_def
      new_content_def heading_given_def stem_def Let_def
      get_metadata_def extract_metadata_def stat_def parse_frontmatter_def yaml_pattern_match_def
      example_world_def example_lib_def example_fromtimestamp_def init_def note_rel_def note_abs_def vault_root_def file_node_def
      is_tag_char_def)



text \<open>
  Claim C2, amended.  Only the bulk listing expires: \<open>get_all_notes\<close> returns the cached
  listing, and touches nothing, exactly while the listing is present and
  \<^verbatim>\<open>now - _note_list_cache_time < _cache_ttl\<close>, and otherwise scans the vault again
  and stamps the new listing with the current time.  The content and metadata entries of
  a single note carry no fetch time: after a \<open>get_note\<close> that returned a note, a
  \<open>get_note\<close> of the same path at any later time, on an unchanged file system, returns
  the same content without reading the file (the world it returns is the world it was
  given, read count included).
\<close>

theorem cache_expiry:
  "(list_cache_valid m w \<longleftrightarrow>
      note_list_cache m \<noteq> None \<and> clock w - note_list_cache_time m < cache_ttl m)
   \<and> (list_cache_valid m w \<longrightarrow>
        (\<exists>notes. note_list_cache m = Some notes \<and> get_all_notes lib m w = (notes, m, w)))
   \<and> (\<not> list_cache_valid m w \<longrightarrow>
        (\<exists>notes m1 w1. process_files lib m w (rglob_md w (vault_path m)) = (notes, m1, w1)
           \<and> get_all_notes lib m w
               = (notes, m1\<lparr>note_list_cache := Some notes, note_list_cache_time := clock w1\<rparr>, w1)))
   \<and> (\<forall>n m1 w1 w2. get_note lib m w p = (Some n, m1, w1) \<longrightarrow> fs w2 = fs w1 \<longrightarrow>
        (\<exists>n' m2. get_note lib m1 w2 p = (Some n', m2, w2) \<and> content n' = content n))"
proof -
  have valid: "\<exists>notes. note_list_cache m = Some notes \<and> get_all_notes lib m w = (notes, m, w)"
    if "list_cache_valid m w"
    using that by (auto simp: get_all_notes_def list_cache_valid_def)
  have stale: "\<exists>notes m1 w1. process_files lib m w (rglob_md w (vault_path m)) = (notes, m1, w1)
           \<and> get_all_notes lib m w
               = (notes, m1\<lparr>note_list_cache := Some notes, note_list_cache_time := clock w1\<rparr>, w1)"
    if "\<not> list_cache_valid m w"
  proof -
    obtain ns m1 w1 where
      "process_files lib m w (rglob_md w (vault_path m)) = (ns, m1, w1)"
      by (cases "process_files lib m w (rglob_md w (vault_path m))") auto
    with that show ?thesis by (simp add: get_all_notes_def)
  qed
  have single: "\<exists>n' m2. get_note lib m1 w2 p = (Some n', m2, w2) \<and> content n' = content n"
    if g: "get_note lib m w p = (Some n, m1, w1)" and fs: "fs w2 = fs w1" for n m1 w1 w2
  proof -
    from get_note_Some [OF g] fs have
      "note_cache m1 (joinpath (vault_path m1) p) = Some (content n)"
      "is_file w2 (joinpath (vault_path m1) p)"
      by (simp_all add: is_file_def)
    then show ?thesis by (rule get_note_cached)
  qed
  show ?thesis using valid stale single by (auto simp: list_cache_valid_def)
qed

theorem cache_expiry_witness:
  "get_all_notes example_lib (init vault_root) (world_at ''text'' 0 0)
     = ([example_note ''text''], listed ''text'' 0, world_at ''text'' 0 1)
   \<and> get_all_notes example_lib (listed ''text'' 0) (world_at ''text'' 29 1)
     = ([example_note ''text''], listed ''text'' 0, world_at ''text'' 29 1)
   \<and> get_all_notes example_lib (listed ''text'' 0) (world_at ''text'' 31 1)
     = ([example_note ''text''], listed ''text'' 31, world_at ''text'' 31 1)"
  using cache_expiry [of "listed ''text'' 0" "world_at ''text'' 29 1" example_lib note_rel]
  by (simp add: get_all_notes_def list_cache_valid_def rglob_md_def suffix_to_prefix
      vault_defs example_defs)

theorem single_note_ttl_counterexample:
  "get_note example_lib (init vault_root) (world_at ''text'' 0 0) note_rel
     = (Some (example_note ''text''), loaded ''text'', world_at ''text'' 0 1)
   \<and> cache_ttl (loaded ''text'') = 30
   \<and> get_note example_lib (loaded ''text'') (world_at ''text'' 31 1) note_rel
     = (Some (example_note ''text''), loaded ''text'', world_at ''text'' 31 1)"
  by (simp add: vault_defs example_defs)

section \<open>Properties of the search engine\<close>

subsection \<open>The matches and the loop over them\<close>

lemma process_extract_Inr:
  "0 \<le> k \<Longrightarrow> \<exists>ms. process_extract sc q choices k = Inr ms"
  by (simp add: process_extract_def)

lemma process_extract_sound:
  assumes "process_extract sc q choices k = Inr ms" and "(t, s, i) \<in> set ms"
  shows "i < length choices \<and> t = choices ! i \<and> s = sc q t"
proof -
  from assms have "(t, s, i) \<in> set (map (\<lambda>(i, t). (t, sc q t, i)) (enumerate 0 choices))"
    unfolding process_extract_def by (auto dest: in_set_takeD split: if_splits)
  then obtain j u where "(j, u) \<in> set (enumerate 0 choices)" "t = u" "s = sc q u" "i = j"
    by auto
  then show ?thesis by (simp add: in_set_enumerate_eq)
qed

lemma process_extract_length:
  "process_extract sc q choices k = Inr ms \<Longrightarrow> int (length ms) \<le> k"
  unfolding process_extract_def by (auto split: if_splits)

lemma collect_results_total:
  "\<forall>(t, s, i) \<in> set ms. i < length index \<Longrightarrow> \<exists>rs. collect_results index th ms = Inr rs"
proof (induction ms)
  case Nil
  then show ?case by simp
next
  case (Cons m ms)
  obtain t s i where m: "m = (t, s, i)" by (cases m)
  from Cons obtain rs where "collect_results index th ms = Inr rs" by auto
  moreover from Cons.prems m have "i < length index" by simp
  ultimately show ?case using m by simp
qed

lemma collect_results_member:
  "collect_results index th ms = Inr rs \<Longrightarrow> r \<in> set rs \<Longrightarrow>
   \<exists>t s i. (t, s, i) \<in> set ms \<and> th \<le> s \<and> i < length index \<and>
     r = \<lparr>res_title = t, res_score = s, res_content = preview (snd (index ! i))\<rparr>"
proof (induction ms arbitrary: rs)
  case Nil
  then show ?case by simp
next
  case (Cons m ms)
  obtain t s i where m: "m = (t, s, i)" by (cases m)
  show ?case
  proof (cases "th \<le> s")
    case False
    with Cons m show ?thesis by fastforce
  next
    case True
    with Cons.prems m obtain rs' where
      i: "i < length index" and rs': "collect_results index th ms = Inr rs'"
      and rs: "rs = \<lparr>res_title = t, res_score = s, res_content = preview (snd (index ! i))\<rparr> # rs'"
      by (auto split: if_splits sum.splits)
    show ?thesis
    proof (cases "r \<in> set rs'")
      case True
      from Cons.IH [OF rs' True] show ?thesis by auto
    next
      case False
      with Cons.prems rs have "r = \<lparr>res_title = t, res_score = s, res_content = preview (snd (index ! i))\<rparr>"
        by simp
      with True i m show ?thesis by auto
    qed
  qed
qed

lemma collect_results_length:
  "collect_results index th ms = Inr rs \<Longrightarrow> length rs \<le> length ms"
proof (induction ms arbitrary: rs)
  case Nil
  then show ?case by simp
next
  case (Cons m ms)
  obtain t s i where m: "m = (t, s, i)" by (cases m)
  with Cons show ?case by (fastforce split: if_splits sum.splits)
qed

lemma collect_results_below:
  "\<forall>(t, s, i) \<in> set ms. s < th \<Longrightarrow> collect_results index th ms = Inr []"
proof (induction ms)
  case Nil
  then show ?case by simp
next
  case (Cons m ms)
  obtain t s i where m: "m = (t, s, i)" by (cases m)
  with Cons show ?case by auto
qed

lemma collect_results_complete:
  "collect_results index th ms = Inr rs \<Longrightarrow> (t, s, i) \<in> set ms \<Longrightarrow> th \<le> s \<Longrightarrow>
   \<exists>r \<in> set rs. res_title r = t \<and> res_score r = s"
proof (induction ms arbitrary: rs)
  case Nil
  then show ?case by simp
next
  case (Cons m ms)
  obtain t' s' i' where m: "m = (t', s', i')" by (cases m)
  show ?case
  proof (cases "th \<le> s'")
    case False
    with Cons m show ?thesis by fastforce
  next
    case True
    with Cons.prems m obtain rs' where
      rs': "collect_results index th ms = Inr rs'"
      and rs: "rs = \<lparr>res_title = t', res_score = s', res_content = preview (snd (index ! i'))\<rparr> # rs'"
      by (auto split: if_splits sum.splits)
    show ?thesis
    proof (cases "(t, s, i) = m")
      case True
      with m rs show ?thesis by simp
    next
      case False
      with Cons.prems have "(t, s, i) \<in> set ms" by simp
      from Cons.IH [OF rs' this Cons.prems(3)] rs show ?thesis by auto
    qed
  qed
qed

lemma sorted_filter_least:
  "sorted (map k ys) \<Longrightarrow> \<forall>y \<in> set ys. (m::real) \<le> k y \<Longrightarrow>
   filter (\<lambda>y. k y = m) ys = takeWhile (\<lambda>y. k y = m) ys"
proof (induction ys)
  case Nil
  then show ?case by simp
next
  case (Cons y ys)
  show ?case
  proof (cases "k y = m")
    case True
    with Cons show ?thesis by simp
  next
    case False
    with Cons.prems have "m < k y" by auto
    moreover from Cons.prems have "\<forall>z \<in> set ys. k y \<le> k z" by simp
    ultimately have "\<forall>z \<in> set ys. k z \<noteq> m" by fastforce
    then have "filter (\<lambda>y. k y = m) ys = []" by (simp add: filter_empty_conv)
    with False show ?thesis by simp
  qed
qed

lemma length_filter_enumerate:
  "length (filter (\<lambda>(i, t). Q t) (enumerate n xs)) = length (filter Q xs)"
  by (induction xs arbitrary: n) auto

lemma best_kept:
  fixes k :: "'a \<Rightarrow> real"
  assumes x: "x \<in> set xs" and kx: "k x = m" and least: "\<forall>y \<in> set xs. m \<le> k y"
    and n: "length (filter (\<lambda>y. k y = m) xs) \<le> n"
  shows "x \<in> set (take n (sort_key k xs))"
proof -
  let ?ys = "sort_key k xs"
  let ?P = "\<lambda>y. k y = m"
  have eq: "filter ?P ?ys = takeWhile ?P ?ys"
    using sorted_filter_least [of k ?ys m] least by simp
  have len: "length (filter ?P ?ys) \<le> n"
    using n by (simp add: filter_sort)
  from x kx have "x \<in> set (filter ?P ?ys)" by simp
  then have "x \<in> set (take (length (takeWhile ?P ?ys)) ?ys)"
    by (simp only: eq takeWhile_eq_take [symmetric])
  moreover have "length (takeWhile ?P ?ys) \<le> n" using len eq by simp
  then have "set (take (length (takeWhile ?P ?ys)) ?ys) \<subseteq> set (take n ?ys)"
    by (rule set_take_subset_set_take)
  ultimately show ?thesis by (rule set_rev_mp)
qed

lemma process_extract_complete:
  assumes i: "i < length choices" and s: "sc q (choices ! i) = 100"
    and top: "\<forall>u \<in> set choices. sc q u \<le> 100"
    and n: "int (length (filter (\<lambda>u. sc q u = 100) choices)) \<le> limit"
  shows "\<exists>ms. process_extract sc q choices limit = Inr ms \<and> (choices ! i, 100, i) \<in> set ms"
proof -
  let ?xs = "map (\<lambda>(i, t). (t, sc q t, i)) (enumerate 0 choices)"
  let ?k = "\<lambda>(t, score, i). - score :: real"
  have "(i, choices ! i) \<in> set (enumerate 0 choices)"
    using i by (simp add: in_set_enumerate_eq)
  then have "(choices ! i, sc q (choices ! i), i) \<in> set ?xs"
    by force
  then have x: "(choices ! i, 100, i) \<in> set ?xs" using s by simp
  have kx: "?k (choices ! i, 100, i) = - 100" by simp
  have least: "\<forall>y \<in> set ?xs. - 100 \<le> ?k y"
    using top by (auto simp: in_set_enumerate_eq)
  have "filter (\<lambda>y. ?k y = - 100) ?xs
        = map (\<lambda>(i, t). (t, sc q t, i)) (filter (\<lambda>(i, t). sc q t = 100) (enumerate 0 choices))"
    by (simp add: filter_map comp_def case_prod_unfold)
  then have "length (filter (\<lambda>y. ?k y = - 100) ?xs) = length (filter (\<lambda>u. sc q u = 100) choices)"
    by (simp add: length_filter_enumerate)
  with n have len: "length (filter (\<lambda>y. ?k y = - 100) ?xs) \<le> nat limit" by simp
  from n have "\<not> limit < 0" by simp
  with best_kept [OF x kx least len] show ?thesis
    unfolding process_extract_def by simp
qed

lemma search_total:
  assumes "0 \<le> k"
  shows "\<exists>rs. search sc index q th k = Inr rs"
proof -
  from assms obtain ms where ms: "process_extract sc q (map fst index) k = Inr ms"
    using process_extract_Inr by blast
  then have "\<forall>(t, s, i) \<in> set ms. i < length index"
    using process_extract_sound [OF ms] by auto
  then have "\<exists>rs. collect_results index th ms = Inr rs" by (rule collect_results_total)
  with ms show ?thesis by (simp add: search_def)
qed

lemma search_Inr:
  assumes "search sc index q th k = Inr rs"
  shows "\<exists>ms. process_extract sc q (map fst index) k = Inr ms
           \<and> collect_results index th ms = Inr rs"
  using assms by (auto simp: search_def split: sum.splits)

text \<open>
  Claim C7, amended.  For every query, every threshold and every \<open>max_results\<close> that is
  not negative, \<open>search\<close> raises nothing and returns only candidates at or above the
  threshold: each result carries the title of an index entry and, as its score, the
  similarity of the query and that title, which is at least the threshold.  It returns
  at most \<open>max_results\<close> results, and the empty list when no indexed title reaches the
  threshold.  (A negative \<open>max_results\<close> goes to \<^verbatim>\<open>process.extract\<close> as its limit,
  and \<open>search\<close> raises what that call raises.)
\<close>

theorem search_threshold_and_cap:
  assumes "0 \<le> max_results"
  shows "\<exists>rs. search sc index q th max_results = Inr rs
           \<and> (\<forall>r \<in> set rs. \<exists>i < length index.
                 res_title r = fst (index ! i) \<and> res_score r = sc q (fst (index ! i))
                 \<and> th \<le> res_score r)
           \<and> int (length rs) \<le> max_results
           \<and> ((\<forall>t \<in> set (map fst index). sc q t < th) \<longrightarrow> rs = [])"
proof -
  obtain rs where rs: "search sc index q th max_results = Inr rs"
    using search_total [OF assms] by blast
  then obtain ms where ms: "process_extract sc q (map fst index) max_results = Inr ms"
    and c: "collect_results index th ms = Inr rs"
    using search_Inr by blast
  have "\<exists>i < length index. res_title r = fst (index ! i) \<and> res_score r = sc q (fst (index ! i))
          \<and> th \<le> res_score r" if "r \<in> set rs" for r
  proof -
    from collect_results_member [OF c that] obtain t s i where
      m: "(t, s, i) \<in> set ms" and th: "th \<le> s" and i: "i < length index"
      and r: "r = \<lparr>res_title = t, res_score = s, res_content = preview (snd (index ! i))\<rparr>"
      by blast
    from process_extract_sound [OF ms m] i have "t = fst (index ! i)" "s = sc q t" by simp_all
    with th i r show ?thesis by auto
  qed
  moreover have "int (length rs) \<le> max_results"
    using collect_results_length [OF c] process_extract_length [OF ms] by linarith
  moreover have "rs = []" if low: "\<forall>t \<in> set (map fst index). sc q t < th"
  proof -
    have "\<forall>(t, s, i) \<in> set ms. s < th"
    proof (clarify)
      fix t s i assume "(t, s, i) \<in> set ms"
      then have "i < length (map fst index) \<and> t = map fst index ! i \<and> s = sc q t"
        by (rule process_extract_sound [OF ms])
      then show "s < th" using low by (metis nth_mem)
    qed
    then have "collect_results index th ms = Inr []" by (rule collect_results_below)
    with c show ?thesis by simp
  qed
  ultimately show ?thesis using rs by blast
qed

theorem search_threshold_and_cap_witness:
  "(0::int) \<le> 10
   \<and> search substring_scorer example_index ''xyz123nomatch'' 60 10 = Inr []
   \<and> search substring_scorer example_index ''Alpha'' 60 10 = Inr [\<lparr>res_title = ''Project Alpha'', res_score = 100, res_content = ''alpha notes''\<rparr>, \<lparr>res_title = ''Alpha Two'', res_score = 100, res_content = ''second''\<rparr>]
   \<and> search substring_scorer example_index ''Alpha Two'' 60.5 10 = Inr [\<lparr>res_title = ''Alpha Two'', res_score = 100, res_content = ''second''\<rparr>]"
  using search_threshold_and_cap [of 10 substring_scorer example_index "''xyz123nomatch''" 60]
    search_threshold_and_cap [of 10 substring_scorer example_index "''Alpha''" 60]
  by (simp add: search_def process_extract_def example_index_def substring_scorer_def
      preview_def enumerate_eq_zip)

text \<open>
  The claim as it stands, for every \<open>max_results\<close>, fails at a negative one: the search
  ends in the error of \<^verbatim>\<open>process.extract\<close>, not in a list of results.
\<close>

theorem search_negative_limit_counterexample:
  "search substring_scorer example_index ''Alpha'' 60 (- 1) = Inl OtherError"
  by (simp add: search_def process_extract_def)

text \<open>
  Claim C9.  Every result of \<open>search\<close> belongs to an index entry whose title it carries,
  and its content preview is the first 200 characters of the entry's content followed by
  three dots when the content is longer than 200 characters (203 characters in all, so for
  a content of 250 characters), and the whole content, with no suffix, when it is not (so
  for a content of 150 characters).
\<close>

theorem search_preview_truncation:
  assumes "search sc index q th max_results = Inr rs" and "r \<in> set rs"
  shows "\<exists>i < length index. res_title r = fst (index ! i)
           \<and> (200 < length (snd (index ! i)) \<longrightarrow>
                 res_content r = take 200 (snd (index ! i)) @ ''...'' \<and> length (res_content r) = 203)
           \<and> (length (snd (index ! i)) \<le> 200 \<longrightarrow> res_content r = snd (index ! i))"
proof -
  from search_Inr [OF assms(1)] obtain ms where
    ms: "process_extract sc q (map fst index) max_results = Inr ms"
    and c: "collect_results index th ms = Inr rs" by blast
  from collect_results_member [OF c assms(2)] obtain t s i where
    m: "(t, s, i) \<in> set ms"
    and i: "i < length index"
    and r: "r = \<lparr>res_title = t, res_score = s, res_content = preview (snd (index ! i))\<rparr>"
    by blast
  from process_extract_sound [OF ms m] i have "t = fst (index ! i)" by simp
  with i r show ?thesis by (auto simp: preview_def)
qed

theorem search_preview_truncation_witness:
  "search substring_scorer preview_index ''note'' 60 10 =
     Inr [\<lparr>res_title = ''Long note'', res_score = 100,
           res_content = replicate 200 (CHR ''x'') @ ''...''\<rparr>,
          \<lparr>res_title = ''Short note'', res_score = 100,
           res_content = replicate 150 (CHR ''y'')\<rparr>]
   \<and> length (replicate 200 (CHR ''x'') @ ''...'') = 203"
  using search_preview_truncation [of substring_scorer preview_index "''note''" 60 10
      "[\<lparr>res_title = ''Long note'', res_score = 100,
           res_content = replicate 200 (CHR ''x'') @ ''...''\<rparr>,
          \<lparr>res_title = ''Short note'', res_score = 100,
           res_content = replicate 150 (CHR ''y'')\<rparr>]"
      "\<lparr>res_title = ''Long note'', res_score = 100,
           res_content = replicate 200 (CHR ''x'') @ ''...''\<rparr>"]
  by (simp add: search_def process_extract_def preview_index_def substring_scorer_def
      preview_def enumerate_eq_zip)

text \<open>
  Claim C8, amended.  Let \<open>t\<close> be an indexed title that the scorer gives 100 for the query
  (as the partial ratio does for a query equal to \<open>t\<close> or to a substring of \<open>t\<close>), let no
  indexed title score more than 100, let the threshold be at most 100 and let at most
  \<open>max_results\<close> indexed titles score 100.  Then \<open>search\<close> returns a result for \<open>t\<close>
  with score 100.  The cut to the \<open>max_results\<close> best matches happens before the
  threshold filter: with more perfect matches than \<open>max_results\<close>, a title that
  contains the query can be left out, as the counterexample shows.
\<close>

theorem search_exact_match:
  assumes "(t, c) \<in> set index" and "sc q t = 100"
    and "\<forall>u \<in> set (map fst index). sc q u \<le> 100"
    and "th \<le> 100"
    and "int (length (filter (\<lambda>u. sc q u = 100) (map fst index))) \<le> max_results"
  shows "\<exists>rs. search sc index q th max_results = Inr rs
           \<and> (\<exists>r \<in> set rs. res_title r = t \<and> res_score r = 100)"
proof -
  from assms(1) obtain i where i: "i < length index" and ti: "index ! i = (t, c)"
    by (auto simp: in_set_conv_nth)
  then have t: "map fst index ! i = t" by simp
  have "\<exists>ms. process_extract sc q (map fst index) max_results = Inr ms
          \<and> (map fst index ! i, 100, i) \<in> set ms"
    using i assms(2,3,5) t by (intro process_extract_complete) simp_all
  then obtain ms where ms: "process_extract sc q (map fst index) max_results = Inr ms"
    and m: "(t, 100, i) \<in> set ms"
    using t by auto
  from assms(5) have "0 \<le> max_results" by simp
  then obtain rs where rs: "search sc index q th max_results = Inr rs"
    using search_total by blast
  with ms have "collect_results index th ms = Inr rs"
    by (simp add: search_def)
  from collect_results_complete [OF this m] assms(4)
  have "\<exists>r \<in> set rs. res_title r = t \<and> res_score r = 100" by simp
  with rs show ?thesis by blast
qed

theorem search_exact_match_witness:
  "search substring_scorer example_index ''Project Alpha'' 60 10 =
     Inr [\<lparr>res_title = ''Project Alpha'', res_score = 100, res_content = ''alpha notes''\<rparr>]"
  using search_exact_match [of "''Project Alpha''" "''alpha notes''" example_index
      substring_scorer "''Project Alpha''" 60 10]
  by (simp add: search_def process_extract_def example_index_def substring_scorer_def
      preview_def enumerate_eq_zip)

theorem search_exact_match_counterexample:
  "(''Alpha Two'', ''second'') \<in> set example_index
   \<and> str_contains ''Alpha'' ''Alpha Two''
   \<and> substring_scorer ''Alpha'' ''Alpha Two'' = 100
   \<and> search substring_scorer example_index ''Alpha'' 60 1 =
       Inr [\<lparr>res_title = ''Project Alpha'', res_score = 100, res_content = ''alpha notes''\<rparr>]"
  by (simp add: search_def process_extract_def example_index_def substring_scorer_def
      preview_def enumerate_eq_zip)

end
